theory Spec2Isabelle
  imports Complex_Main "HOL-Library.Char_ord" "HOL-Library.List_Lexorder" "HOL-Library.Multiset"
begin

section \<open>Data model of Money\_tracker.py\<close>

text \<open>
  A transaction is the dictionary built by the form handler (lines 240-247) and by the
  settlement handler (lines 440-447): six keys, always all present. The amount is a
  Python float in the source. The record leaves the type of the amount open: it is
  \<open>double\<close> (below) for the floats of the running program, and \<open>rat\<close> where a
  statement is about exact arithmetic or does not depend on the arithmetic. The
  \<open>date\<close> and \<open>timestamp\<close> fields hold the strings that \<open>strftime\<close> produced.
\<close>

record 'a transaction =
  person :: string
  amount :: 'a
  date :: string
  purpose :: string
  is_repayment :: bool
  timestamp :: string

text \<open>Python's \<open>date\<close> and \<open>datetime\<close> values, as the clock and the date widget give them.\<close>

record py_date =
  year :: nat
  month :: nat
  day :: nat

record py_datetime = py_date +
  hour :: nat
  minute :: nat
  second :: nat
  microsecond :: nat

definition digit :: "nat \<Rightarrow> char" where
  "digit n = ''0123456789'' ! (n mod 10)"

definition dec2 :: "nat \<Rightarrow> string" where
  "dec2 n = [digit (n div 10), digit n]"

definition dec4 :: "nat \<Rightarrow> string" where
  "dec4 n = [digit (n div 1000), digit (n div 100), digit (n div 10), digit n]"

text \<open>
  \<open>d.strftime('%Y-%m-%d')\<close>, for a date or a datetime: zero-padded decimal fields, as
  Python prints them for the years 1000 to 9999, months and days in their ranges.
\<close>

definition strftime_ymd :: "'a py_date_scheme \<Rightarrow> string" where
  "strftime_ymd d = dec4 (year d) @ ''-'' @ dec2 (month d) @ ''-'' @ dec2 (day d)"

text \<open>\<open>t.strftime('%Y-%m-%d %H:%M:%S')\<close>: the microseconds are not printed.\<close>

definition strftime_ymd_hms :: "py_datetime \<Rightarrow> string" where
  "strftime_ymd_hms t =
     strftime_ymd t @ '' '' @ dec2 (hour t) @ '':'' @ dec2 (minute t) @ '':'' @ dec2 (second t)"

text \<open>
  \<open>str.lower\<close> on ASCII strings: the letters A-Z are lowered and every other byte is
  left as it is. It agrees with Python on names written in ASCII, and is used for
  such names only; statements about every name take the lowering function as a
  parameter (\<open>calculate_person_balance_with\<close> below).
\<close>

definition lower_char :: "char \<Rightarrow> char" where
  "lower_char c =
     (case map_of (zip ''ABCDEFGHIJKLMNOPQRSTUVWXYZ'' ''abcdefghijklmnopqrstuvwxyz'') c of
        Some l \<Rightarrow> l
      | None \<Rightarrow> c)"

definition str_lower :: "string \<Rightarrow> string" where
  "str_lower s = map lower_char s"

text \<open>
  The builtin \<open>sum\<close> in exact arithmetic: start at 0 and add the items from left to
  right. The builtin \<open>sum\<close> on floats is \<open>builtin_sum\<close> below.
\<close>

definition py_sum :: "rat list \<Rightarrow> rat" where
  "py_sum xs = foldl (+) 0 xs"

section \<open>Ledger queries\<close>

text \<open>
  \<open>calculate_person_balance\<close> (lines 132-136), on exact amounts and ASCII names. The
  source reads the global \<open>st.session_state.transactions\<close>; here the list is an
  argument. The same function on floats and with any lowering function is
  \<open>calculate_person_balance_with\<close> below.
\<close>

definition calculate_person_balance ::
  "rat transaction list \<Rightarrow> string \<Rightarrow> rat \<times> rat transaction list" where
  "calculate_person_balance ts person_name =
     (let person_transactions = [t \<leftarrow> ts. str_lower (person t) = str_lower person_name];
          total = py_sum [amount t. t \<leftarrow> person_transactions]
      in (total, person_transactions))"

text \<open>The sidebar and summary aggregates (lines 261-263 and 661-663).\<close>

definition total_given :: "rat transaction list \<Rightarrow> rat" where
  "total_given ts = py_sum [amount t. t \<leftarrow> ts, amount t > 0]"

definition total_borrowed :: "rat transaction list \<Rightarrow> rat" where
  "total_borrowed ts = py_sum [\<bar>amount t\<bar>. t \<leftarrow> ts, amount t < 0]"

definition net_position :: "rat transaction list \<Rightarrow> rat" where
  "net_position ts = total_given ts - total_borrowed ts"

definition net_balance :: "rat transaction list \<Rightarrow> rat" where
  "net_balance ts = py_sum [amount t. t \<leftarrow> ts]"

text \<open>
  \<open>get_all_persons\<close> (lines 138-141). \<open>list(set(...))\<close> lists the distinct names
  in the set's iteration order, which for strings depends on the process's hash seed;
  that order is the parameter \<open>enum\<close>, of which only \<open>set_iteration\<close> is known.
  \<open>sorted(persons, key=str.lower)\<close> is a stable sort on the lowered name.
\<close>

definition set_iteration :: "(string list \<Rightarrow> string list) \<Rightarrow> bool" where
  "set_iteration enum = (\<forall>xs. distinct (enum xs) \<and> set (enum xs) = set xs)"

definition get_all_persons ::
  "(string list \<Rightarrow> string list) \<Rightarrow> 'a transaction list \<Rightarrow> string list" where
  "get_all_persons enum ts =
     (let persons = enum [person t. t \<leftarrow> ts]
      in sort_key str_lower persons)"

text \<open>
  The builtin \<open>max(iterable, key=f)\<close> on a non-empty iterable: the first item whose
  key is the largest (a later item replaces the best so far only with a strictly
  larger key).
\<close>

fun max_by :: "('a \<Rightarrow> nat) \<Rightarrow> 'a \<Rightarrow> 'a list \<Rightarrow> 'a" where
  "max_by f best [] = best"
| "max_by f best (x # xs) = max_by f (if f best < f x then x else best) xs"

text \<open>
  The most active person (lines 705-707); nothing is shown when there is no person.
\<close>

definition most_active ::
  "(string list \<Rightarrow> string list) \<Rightarrow> 'a transaction list \<Rightarrow> string option" where
  "most_active enum ts =
     (case get_all_persons enum ts of
        [] \<Rightarrow> None
      | p # ps \<Rightarrow> Some (max_by (\<lambda>p. length [t \<leftarrow> ts. person t = p]) p ps))"

section \<open>Session state and durable storage\<close>

text \<open>
  What \<open>json.load\<close> can give for the data file: a value that is not a dictionary, or a
  dictionary with or without the key \<open>transactions\<close> (a list of transaction records).
  The file itself is absent, unreadable (opening or parsing it raises), or readable.
\<close>

datatype 'a document = NotObject | Object "'a transaction list option"

datatype 'a storage = Absent | Unreadable | Readable "'a document"

record 'a app =
  transactions :: "'a transaction list"
  data_file :: "'a storage"

text \<open>
  Lines 101-102: a session that has no \<open>transactions\<close> yet gets the empty list; a
  rerun of the script keeps the list of the session.
\<close>

definition init_session :: "'a transaction list option \<Rightarrow> 'a transaction list" where
  "init_session ss = (case ss of None \<Rightarrow> [] | Some ts \<Rightarrow> ts)"

text \<open>
  \<open>load_data\<close> (lines 111-118): nothing happens when the file does not exist; inside
  the \<open>try\<close> every exception is swallowed (\<open>except: pass\<close>), also the AttributeError
  of \<open>data.get\<close> on a value that is no dictionary.
\<close>

definition load_data :: "'a app \<Rightarrow> 'a app" where
  "load_data s =
     (case data_file s of
        Absent \<Rightarrow> s
      | Unreadable \<Rightarrow> s
      | Readable NotObject \<Rightarrow> s
      | Readable (Object None) \<Rightarrow> s\<lparr>transactions := []\<rparr>
      | Readable (Object (Some ts)) \<Rightarrow> s\<lparr>transactions := ts\<rparr>)"

text \<open>The start of every script run: lines 101-102, then line 129.\<close>

definition startup :: "'a transaction list option \<Rightarrow> 'a storage \<Rightarrow> 'a app" where
  "startup ss f = load_data \<lparr>transactions = init_session ss, data_file = f\<rparr>"

text \<open>\<open>save_data\<close> (lines 121-126), for a write that succeeds.\<close>

definition save_data :: "'a app \<Rightarrow> 'a app" where
  "save_data s = s\<lparr>data_file := Readable (Object (Some (transactions s)))\<rparr>"

section \<open>Ledger commands\<close>

text \<open>
  The submit handler of \<open>transaction_form\<close> (lines 232-254). The radio button has two
  options, and \<open>"gave money" in transaction_type\<close> holds for the first one only. The
  handler answers with \<open>st.success\<close> (naming the person) or with
  \<open>st.error("Please fill in all required fields!")\<close>. The date comes from a widget
  capped at today (line 213); the handler itself does not look at it.
\<close>

datatype transaction_type = Gave | Borrowed

datatype notice = Added string | FillRequired

definition transaction_form_submit ::
  "py_datetime \<Rightarrow> string \<Rightarrow> transaction_type \<Rightarrow> rat \<Rightarrow> py_date \<Rightarrow> string \<Rightarrow> bool
     \<Rightarrow> rat app \<Rightarrow> notice \<times> rat app" where
  "transaction_form_submit now person_name ty amt transaction_date purp is_rep s =
     (if person_name \<noteq> [] \<and> amt > 0 then
        let actual_amount = (if ty = Gave then amt else - amt);
            tx = \<lparr>person = person_name, amount = actual_amount,
                     date = strftime_ymd transaction_date, purpose = purp,
                     is_repayment = is_rep, timestamp = strftime_ymd_hms now\<rparr>
        in (Added person_name, save_data (s\<lparr>transactions := transactions s @ [tx]\<rparr>))
      else (FillRequired, s))"

text \<open>
  The handler of "Mark as Settled" (lines 439-451), for the person of one card; the
  balance is the one \<open>calculate_person_balance\<close> returned for that card (line 338).
  This is the handler on exact amounts and ASCII names; on floats and with any lowering
  function it is \<open>mark_as_settled_with\<close> below.
\<close>

definition mark_as_settled ::
  "py_date \<Rightarrow> py_datetime \<Rightarrow> string \<Rightarrow> rat app \<Rightarrow> rat app" where
  "mark_as_settled today now p s =
     (let (balance, person_transactions) = calculate_person_balance (transactions s) p
      in if balance \<noteq> 0 then
           let settlement = \<lparr>person = p, amount = - balance,
                              date = strftime_ymd today, purpose = ''Full settlement'',
                              is_repayment = True, timestamp = strftime_ymd_hms now\<rparr>
           in save_data (s\<lparr>transactions := transactions s @ [settlement]\<rparr>)
         else s)"

text \<open>
  The delete button of the transaction table (lines 528-534): the loop pops the first
  transaction with the row's timestamp and breaks.
\<close>

fun pop_first :: "string \<Rightarrow> 'a transaction list \<Rightarrow> 'a transaction list" where
  "pop_first ts_key [] = []"
| "pop_first ts_key (t # ts) = (if timestamp t = ts_key then ts else t # pop_first ts_key ts)"

definition del_trans :: "string \<Rightarrow> 'a app \<Rightarrow> 'a app" where
  "del_trans ts_key s = save_data (s\<lparr>transactions := pop_first ts_key (transactions s)\<rparr>)"

text \<open>
  The delete button of a person's card (lines 425-428): \<open>list.remove\<close> takes out the
  first equal transaction, and raises ValueError when there is none.
\<close>

datatype py_error = ValueError

definition del_person_trans :: "'a transaction \<Rightarrow> 'a app \<Rightarrow> py_error + 'a app" where
  "del_person_trans tx s =
     (if tx \<in> set (transactions s)
      then Inr (save_data (s\<lparr>transactions := remove1 tx (transactions s)\<rparr>))
      else Inl ValueError)"

section \<open>Runs of commands\<close>

text \<open>
  The mutating commands with their inputs (clock readings included), and the session
  after one command and after a run. A \<open>list.remove\<close> that raises leaves the session
  as it was.
\<close>

datatype command =
    Record py_datetime string transaction_type rat py_date string bool
  | Settle py_date py_datetime string
  | Delete string
  | Remove "rat transaction"

fun step :: "command \<Rightarrow> rat app \<Rightarrow> rat app" where
  "step (Record now p ty a d pu r) s = snd (transaction_form_submit now p ty a d pu r s)"
| "step (Settle today now p) s = mark_as_settled today now p s"
| "step (Delete k) s = del_trans k s"
| "step (Remove t) s = (case del_person_trans t s of Inr s' \<Rightarrow> s' | Inl e \<Rightarrow> s)"

fun run :: "command list \<Rightarrow> rat app \<Rightarrow> rat app" where
  "run [] s = s"
| "run (c # cs) s = run cs (step c s)"

text \<open>The timestamps that the record and settle commands of a run write.\<close>

fun stamps :: "command list \<Rightarrow> string list" where
  "stamps [] = []"
| "stamps (Record now p ty a d pu r # cs) = strftime_ymd_hms now # stamps cs"
| "stamps (Settle today now p # cs) = strftime_ymd_hms now # stamps cs"
| "stamps (c # cs) = stamps cs"

definition empty_app :: "'a app" where
  "empty_app = \<lparr>transactions = [], data_file = Absent\<rparr>"

section \<open>Floating-point amounts\<close>

text \<open>
  The amounts of the running program are Python floats: IEEE 754 binary64 numbers. A
  finite float is modelled by the rational number it denotes (the two zeros are not
  told apart: they are equal under \<open>==\<close>, and no sum or comparison of the ledger tells
  them apart), next to the two infinities and NaN.
\<close>

datatype double = Finite rat | PosInf | NegInf | NaN

definition pow2 :: "int \<Rightarrow> rat" where
  "pow2 e = (if 0 \<le> e then 2 ^ nat e else 1 / 2 ^ nat (- e))"

function bit_length :: "int \<Rightarrow> nat" where
  "bit_length n = (if n \<le> 0 then 0 else Suc (bit_length (n div 2)))"
  by pat_completeness auto
termination
  by (relation "measure nat") auto

declare bit_length.simps [simp del]

text \<open>
  The binary exponent of a rational \<open>q \<noteq> 0\<close>: the \<open>e\<close> with
  \<open>2\<^sup>e \<le> \<bar>q\<bar> < 2\<^sup>e\<^sup>+\<^sup>1\<close>.
\<close>

definition exponent :: "rat \<Rightarrow> int" where
  "exponent q =
     (if 1 \<le> \<bar>q\<bar> then int (bit_length \<lfloor>\<bar>q\<bar>\<rfloor>) - 1
      else - int (bit_length (\<lceil>1 / \<bar>q\<bar>\<rceil> - 1)))"

definition round_half_even :: "rat \<Rightarrow> int" where
  "round_half_even r =
     (let f = \<lfloor>r\<rfloor>; rest = r - of_int f
      in if rest < 1 / 2 then f
         else if 1 / 2 < rest then f + 1
         else if even f then f else f + 1)"

text \<open>
  Rounding an exact result to binary64, to nearest with ties to even: 53 significant
  bits, the least exponent -1022 (below it the spacing stays \<open>2\<^sup>-\<^sup>1\<^sup>0\<^sup>7\<^sup>4\<close>), and
  overflow to an infinity when the rounded magnitude reaches \<open>2\<^sup>1\<^sup>0\<^sup>2\<^sup>4\<close>. A decimal
  literal or input \<open>q\<close> is the float \<open>round_double q\<close>.
\<close>

definition round_double :: "rat \<Rightarrow> double" where
  "round_double q =
     (if q = 0 then Finite 0
      else let e = max (exponent q) (- 1022);
               ulp = pow2 (e - 52);
               r = of_int (round_half_even (\<bar>q\<bar> / ulp)) * ulp
           in if pow2 1024 \<le> r then (if 0 < q then PosInf else NegInf)
              else Finite (if 0 < q then r else - r))"

text \<open>Float addition \<open>x + y\<close>.\<close>

fun fadd :: "double \<Rightarrow> double \<Rightarrow> double" where
  "fadd (Finite a) (Finite b) = round_double (a + b)"
| "fadd NaN y = NaN"
| "fadd x NaN = NaN"
| "fadd PosInf NegInf = NaN"
| "fadd NegInf PosInf = NaN"
| "fadd PosInf y = PosInf"
| "fadd NegInf y = NegInf"
| "fadd (Finite a) y = y"

text \<open>The float \<open>0.0\<close> (equal to the integer 0 under \<open>==\<close>) and the negation \<open>-x\<close>.\<close>

instantiation double :: "{zero, uminus}"
begin

definition zero_double :: double where
  "zero_double = Finite 0"

definition uminus_double :: "double \<Rightarrow> double" where
  "uminus_double x =
     (case x of Finite a \<Rightarrow> Finite (- a) | PosInf \<Rightarrow> NegInf | NegInf \<Rightarrow> PosInf | NaN \<Rightarrow> NaN)"

instance ..

end

text \<open>Float subtraction \<open>x - y\<close>, the test \<open>fabs(x) >= fabs(y)\<close> and \<open>isfinite\<close> of C.\<close>

definition fsub :: "double \<Rightarrow> double \<Rightarrow> double" where
  "fsub x y = fadd x (- y)"

fun fabs_ge :: "double \<Rightarrow> double \<Rightarrow> bool" where
  "fabs_ge NaN y = False"
| "fabs_ge x NaN = False"
| "fabs_ge (Finite a) (Finite b) = (\<bar>b\<bar> \<le> \<bar>a\<bar>)"
| "fabs_ge (Finite a) y = False"
| "fabs_ge x y = True"

fun is_finite :: "double \<Rightarrow> bool" where
  "is_finite (Finite a) = True"
| "is_finite x = False"

text \<open>
  The builtin \<open>sum\<close> on a list of floats. It starts from the integer 0. Before
  CPython 3.12 it adds the items from left to right. Since CPython 3.12 it adds the
  first float to the integer 0 and then runs Neumaier's compensated summation over the
  rest: \<open>f\<close> is the running sum, \<open>c\<close> the compensation, which is added at the end
  unless it is zero or not finite.
\<close>

datatype cpython = Before_3_12 | Since_3_12

fun neumaier :: "double \<Rightarrow> double \<Rightarrow> double list \<Rightarrow> double" where
  "neumaier f c [] = (if c \<noteq> 0 \<and> is_finite c then fadd f c else f)"
| "neumaier f c (x # xs) =
     (let t = fadd f x;
          c' = (if fabs_ge f x then fadd c (fadd (fsub f t) x)
                else fadd c (fadd (fsub x t) f))
      in neumaier t c' xs)"

definition builtin_sum :: "cpython \<Rightarrow> double list \<Rightarrow> double" where
  "builtin_sum v xs =
     (case v of
        Before_3_12 \<Rightarrow> foldl fadd 0 xs
      | Since_3_12 \<Rightarrow> (case xs of [] \<Rightarrow> 0 | x # ys \<Rightarrow> neumaier (fadd 0 x) 0 ys))"

text \<open>
  \<open>calculate_person_balance\<close> (lines 132-136) with what Python supplies left open:
  \<open>lower\<close> stands for \<open>str.lower\<close> and \<open>total_of\<close> for the builtin \<open>sum\<close> on the
  amounts. \<open>calculate_person_balance\<close> above is the instance with \<open>str_lower\<close> and exact
  amounts; the running program is the instance with floats and \<open>builtin_sum\<close>.
\<close>

definition calculate_person_balance_with ::
  "(string \<Rightarrow> string) \<Rightarrow> ('a list \<Rightarrow> 'a) \<Rightarrow> 'a transaction list \<Rightarrow> string
     \<Rightarrow> 'a \<times> 'a transaction list" where
  "calculate_person_balance_with lower total_of ts person_name =
     (let person_transactions = [t \<leftarrow> ts. lower (person t) = lower person_name];
          total = total_of [amount t. t \<leftarrow> person_transactions]
      in (total, person_transactions))"

text \<open>The handler of "Mark as Settled" (lines 439-451), in the same way.\<close>

definition mark_as_settled_with ::
  "(string \<Rightarrow> string) \<Rightarrow> ('a list \<Rightarrow> 'a) \<Rightarrow> py_date \<Rightarrow> py_datetime \<Rightarrow> string
     \<Rightarrow> ('a::{zero,uminus}) app \<Rightarrow> 'a app" where
  "mark_as_settled_with lower total_of today now p s =
     (let (balance, person_transactions) =
            calculate_person_balance_with lower total_of (transactions s) p
      in if balance \<noteq> 0 then
           let settlement = \<lparr>person = p, amount = - balance,
                              date = strftime_ymd today, purpose = ''Full settlement'',
                              is_repayment = True, timestamp = strftime_ymd_hms now\<rparr>
           in save_data (s\<lparr>transactions := transactions s @ [settlement]\<rparr>)
         else s)"

section \<open>Example ledgers\<close>

text \<open>
  The transactions of the scenarios: "Alice" is lent 20, "alice" lends back 5, and
  transactions of other persons.
\<close>

definition alice_lunch :: "rat transaction" where
  "alice_lunch = \<lparr>person = ''Alice'', amount = 20, date = ''2024-01-01'', purpose = ''Lunch'',
                   is_repayment = False, timestamp = ''2024-01-01 12:00:00''\<rparr>"

definition alice_back :: "rat transaction" where
  "alice_back = \<lparr>person = ''alice'', amount = - 5, date = ''2024-01-02'', purpose = [],
                  is_repayment = False, timestamp = ''2024-01-02 09:30:00''\<rparr>"

definition bob_taxi :: "rat transaction" where
  "bob_taxi = \<lparr>person = ''Bob'', amount = 3, date = ''2024-01-03'', purpose = ''Taxi'',
                is_repayment = False, timestamp = ''2024-01-03 18:00:00''\<rparr>"

definition bob_lower :: "rat transaction" where
  "bob_lower = \<lparr>person = ''bob'', amount = 4, date = ''2024-01-04'', purpose = [],
                 is_repayment = False, timestamp = ''2024-01-04 08:00:00''\<rparr>"

definition al_book :: "rat transaction" where
  "al_book = \<lparr>person = ''Al'', amount = - 7, date = ''2024-01-05'', purpose = ''Book'',
               is_repayment = False, timestamp = ''2024-01-05 10:00:00''\<rparr>"

text \<open>A transaction recorded in the same second as \<open>bob_taxi\<close>.\<close>

definition bob_tip :: "rat transaction" where
  "bob_tip = \<lparr>person = ''Bob'', amount = 1, date = ''2024-01-03'', purpose = ''Tip'',
               is_repayment = False, timestamp = ''2024-01-03 18:00:00''\<rparr>"

definition noon :: py_datetime where
  "noon = \<lparr>year = 2024, month = 1, day = 6, hour = 12, minute = 0, second = 0, microsecond = 0\<rparr>"

definition noon_later :: py_datetime where
  "noon_later = \<lparr>year = 2024, month = 1, day = 6, hour = 12, minute = 0, second = 0,
                  microsecond = 500000\<rparr>"

definition one_pm :: py_datetime where
  "one_pm = \<lparr>year = 2024, month = 1, day = 6, hour = 13, minute = 0, second = 0, microsecond = 0\<rparr>"

definition jan6 :: py_date where
  "jan6 = \<lparr>year = 2024, month = 1, day = 6\<rparr>"

definition far_future :: py_date where
  "far_future = \<lparr>year = 2999, month = 12, day = 31\<rparr>"

text \<open>Float ledgers: amounts of \<open>2\<^sup>1\<^sup>0\<^sup>2\<^sup>3\<close>, and of 0.01, 0.02, 0.1, 0.2, 0.3.\<close>

definition huge :: rat where
  "huge = 2 ^ 1023"

definition float_entry :: "string \<Rightarrow> double \<Rightarrow> string \<Rightarrow> double transaction" where
  "float_entry p a stamp = \<lparr>person = p, amount = a, date = ''2024-01-03'', purpose = [],
                            is_repayment = False, timestamp = stamp\<rparr>"

definition bob_huge :: "double transaction" where
  "bob_huge = float_entry ''Bob'' (Finite huge) ''2024-01-03 18:00:00''"

definition bob_huge_again :: "double transaction" where
  "bob_huge_again = float_entry ''Bob'' (Finite huge) ''2024-01-03 18:01:00''"

definition bob_huge_back :: "double transaction" where
  "bob_huge_back = float_entry ''Bob'' (Finite (- huge)) ''2024-01-03 18:02:00''"

definition bob_cent :: "double transaction" where
  "bob_cent = float_entry ''Bob'' (round_double (1 / 100)) ''2024-01-03 18:03:00''"

definition bob_two_cents :: "double transaction" where
  "bob_two_cents = float_entry ''Bob'' (round_double (2 / 100)) ''2024-01-03 18:04:00''"

definition bob_dime :: "double transaction" where
  "bob_dime = float_entry ''Bob'' (round_double (1 / 10)) ''2024-01-03 18:05:00''"

definition bob_two_dimes :: "double transaction" where
  "bob_two_dimes = float_entry ''Bob'' (round_double (2 / 10)) ''2024-01-03 18:06:00''"

definition bob_three_dimes :: "double transaction" where
  "bob_three_dimes = float_entry ''Bob'' (round_double (3 / 10)) ''2024-01-03 18:07:00''"

lemmas example_defs = alice_lunch_def alice_back_def bob_taxi_def bob_lower_def al_book_def
  bob_tip_def noon_def noon_later_def one_pm_def jan6_def far_future_def

lemmas strftime_defs = strftime_ymd_hms_def strftime_ymd_def dec2_def dec4_def digit_def

lemmas lower_defs = str_lower_def lower_char_def

lemmas float_examples = float_entry_def bob_huge_def bob_huge_again_def bob_huge_back_def
  bob_cent_def bob_two_cents_def bob_dime_def bob_two_dimes_def bob_three_dimes_def

section \<open>Facts about the builtin sum\<close>

lemma foldl_plus_start: "foldl (+) a xs = a + sum_list xs" for a :: rat
  by (induction xs arbitrary: a) (simp_all add: add.assoc)

lemma py_sum_sum_list: "py_sum xs = sum_list xs"
  by (simp add: py_sum_def foldl_plus_start)

lemma py_sum_append: "py_sum (xs @ ys) = py_sum xs + py_sum ys"
  by (simp add: py_sum_sum_list)

lemma py_sum_mset: "py_sum xs = sum_mset (mset xs)"
  by (simp add: py_sum_sum_list sum_mset_sum_list)

section \<open>The binary exponent\<close>

lemma bit_length_bounds:
  "0 < n \<Longrightarrow> 2 ^ (bit_length n - 1) \<le> n \<and> n < 2 ^ bit_length n"
proof (induction n rule: bit_length.induct)
  case (1 n)
  show ?case
  proof (cases "n = 1")
    case True
    then show ?thesis by (simp add: bit_length.simps)
  next
    case False
    with "1.prems" have half: "0 < n div 2" by linarith
    with "1.IH" "1.prems" have ih: "2 ^ (bit_length (n div 2) - 1) \<le> n div 2"
      "n div 2 < 2 ^ bit_length (n div 2)"
      by auto
    from half have pos: "0 < bit_length (n div 2)"
      by (simp add: bit_length.simps)
    have bl: "bit_length n = Suc (bit_length (n div 2))"
      using "1.prems" by (simp add: bit_length.simps)
    from pos have "(2::int) ^ bit_length (n div 2) = 2 * 2 ^ (bit_length (n div 2) - 1)"
      by (cases "bit_length (n div 2)") simp_all
    with ih have "2 ^ bit_length (n div 2) \<le> n"
      by linarith
    moreover from ih have "n < 2 * 2 ^ bit_length (n div 2)"
      by linarith
    ultimately show ?thesis
      by (simp add: bl)
  qed
qed

lemma pow2_nat: "pow2 (int n) = 2 ^ n"
  by (simp add: pow2_def)

lemma pow2_neg: "pow2 (- int n) = 1 / 2 ^ n"
  by (cases n) (simp_all add: pow2_def nat_add_distrib)

lemma exponent_bounds:
  assumes "q \<noteq> 0"
  shows "pow2 (exponent q) \<le> \<bar>q\<bar> \<and> \<bar>q\<bar> < pow2 (exponent q + 1)"
proof (cases "1 \<le> \<bar>q\<bar>")
  case True
  let ?f = "\<lfloor>\<bar>q\<bar>\<rfloor>"
  from True have f: "0 < ?f" by linarith
  note b = bit_length_bounds [OF f]
  from f have pos: "0 < bit_length ?f" by (simp add: bit_length.simps)
  have e: "exponent q = int (bit_length ?f - 1)"
    using True pos by (simp add: exponent_def)
  have "pow2 (exponent q) = of_int (2 ^ (bit_length ?f - 1))"
    by (simp add: e pow2_nat)
  also have "\<dots> \<le> of_int ?f"
    using b by (simp only: of_int_le_iff)
  also have "\<dots> \<le> \<bar>q\<bar>" by simp
  finally have lo: "pow2 (exponent q) \<le> \<bar>q\<bar>" .
  have "exponent q + 1 = int (bit_length ?f)"
    using pos by (simp add: e)
  then have "pow2 (exponent q + 1) = of_int (2 ^ bit_length ?f)"
    by (simp add: pow2_nat)
  moreover have "\<bar>q\<bar> < of_int (?f + 1)" by linarith
  moreover have "(of_int (?f + 1) :: rat) \<le> of_int (2 ^ bit_length ?f)"
    using b by (simp only: of_int_le_iff) linarith
  ultimately have "\<bar>q\<bar> < pow2 (exponent q + 1)" by linarith
  with lo show ?thesis ..
next
  case False
  define a where "a = \<bar>q\<bar>"
  define y where "y = 1 / a"
  define m where "m = \<lceil>y\<rceil> - 1"
  define b where "b = bit_length m"
  from False assms have a: "0 < a" "a < 1"
    by (simp_all add: a_def)
  then have ay: "a * y = 1" and y: "1 < y"
    by (simp_all add: y_def)
  have my: "of_int m < y" "y \<le> of_int m + 1"
    unfolding m_def by linarith+
  from y my have m: "0 < m"
    by linarith
  note bl = bit_length_bounds [OF m, folded b_def]
  from m have pos: "0 < b"
    by (simp add: b_def bit_length.simps)
  have e: "exponent q = - int b"
    unfolding exponent_def b_def m_def y_def a_def using False by simp
  from bl have "m + 1 \<le> 2 ^ b"
    by linarith
  then have "(of_int (m + 1) :: rat) \<le> of_int (2 ^ b)"
    by (simp only: of_int_le_iff)
  then have "(of_int m :: rat) + 1 \<le> 2 ^ b"
    by simp
  with my have "y \<le> 2 ^ b"
    by linarith
  with a have "a * y \<le> a * 2 ^ b"
    by (simp only: mult_le_cancel_left_pos)
  with ay have "1 / 2 ^ b \<le> a"
    by (simp add: field_simps)
  then have lo: "pow2 (exponent q) \<le> \<bar>q\<bar>"
    by (simp add: e pow2_neg a_def)
  have "(of_int (2 ^ (b - 1)) :: rat) \<le> of_int m"
    using bl by (simp only: of_int_le_iff)
  then have "(2 :: rat) ^ (b - 1) \<le> of_int m"
    by simp
  with my have "2 ^ (b - 1) < y"
    by linarith
  with a have "a * 2 ^ (b - 1) < a * y"
    by (simp only: mult_less_cancel_left_pos)
  with ay have "a < 1 / 2 ^ (b - 1)"
    by (simp add: field_simps)
  moreover from pos have "exponent q + 1 = - int (b - 1)"
    by (simp add: e)
  ultimately have "\<bar>q\<bar> < pow2 (exponent q + 1)"
    by (simp add: pow2_neg a_def)
  with lo show ?thesis ..
qed

section \<open>Rounding at concrete numbers\<close>

lemma floor_rat_numeral: "\<lfloor>(numeral a :: rat) / numeral b\<rfloor> = numeral a div numeral b"
  using floor_divide_of_int_eq [of "numeral a" "numeral b", where ?'a = rat] by simp

lemma ceiling_rat_numeral:
  "\<lceil>(numeral a :: rat) / numeral b\<rceil> = - (- numeral a div numeral b)"
  using ceiling_divide_eq_div [of "numeral a" "numeral b", where ?'a = rat] by simp

lemmas round_eval = round_double_def exponent_def Let_def pow2_def bit_length.simps
  round_half_even_def floor_rat_numeral ceiling_rat_numeral

lemma round_double_zero: "round_double 0 = 0"
  by (simp add: round_double_def zero_double_def)

lemma huge_pos: "0 < huge"
  by (simp add: huge_def)

lemma round_double_huge: "round_double huge = Finite huge"
  by (simp add: huge_def round_eval)

lemma round_double_huge_twice: "round_double (2 * huge) = PosInf"
  by (simp add: huge_def round_eval)

lemma fadd_zero_left: "fadd 0 (Finite huge) = Finite huge"
  by (simp add: zero_double_def round_double_huge)

lemma fadd_huge_huge: "fadd (Finite huge) (Finite huge) = PosInf"
  by (simp add: round_double_huge_twice)

lemma fadd_huge_back: "fadd (Finite huge) (Finite (- huge)) = 0"
  by (simp add: round_double_zero)

lemma round_double_huge_sum: "round_double (huge + huge) = PosInf"
  using round_double_huge_twice by simp

lemmas huge_eval = round_double_zero [unfolded zero_double_def] round_double_huge
  round_double_huge_twice round_double_huge_sum zero_double_def uminus_double_def fsub_def
  builtin_sum_def

section \<open>The exact instance\<close>

lemma calculate_person_balance_instance:
  "calculate_person_balance = calculate_person_balance_with str_lower py_sum"
  by (simp add: fun_eq_iff calculate_person_balance_def calculate_person_balance_with_def)

lemma mark_as_settled_instance:
  "mark_as_settled = mark_as_settled_with str_lower py_sum"
  by (simp add: fun_eq_iff mark_as_settled_def mark_as_settled_with_def
      calculate_person_balance_instance)

section \<open>Balance of a person\<close>

text \<open>
  Claim C1, as stated, fails on the float amounts of the code: the balance depends on
  the order of the collection. Three transactions of the amounts \<open>2\<^sup>1\<^sup>0\<^sup>2\<^sup>3\<close>,
  \<open>2\<^sup>1\<^sup>0\<^sup>2\<^sup>3\<close> and \<open>-2\<^sup>1\<^sup>0\<^sup>2\<^sup>3\<close> sum to infinity in one order and to \<open>2\<^sup>1\<^sup>0\<^sup>2\<^sup>3\<close> in
  another, under both summation algorithms; and 0.1, 0.2, 0.3 summed from left to
  right give 0.6000000000000001, but 0.6 in the reverse order.
\<close>

theorem float_balance_order_counterexample:
  "mset [bob_huge, bob_huge_back, bob_huge_again] = mset [bob_huge, bob_huge_again, bob_huge_back]
   \<and> fst (calculate_person_balance_with str_lower (builtin_sum Before_3_12)
          [bob_huge, bob_huge_again, bob_huge_back] ''Bob'') = PosInf
   \<and> fst (calculate_person_balance_with str_lower (builtin_sum Before_3_12)
          [bob_huge, bob_huge_back, bob_huge_again] ''Bob'') = Finite huge
   \<and> fst (calculate_person_balance_with str_lower (builtin_sum Since_3_12)
          [bob_huge, bob_huge_again, bob_huge_back] ''Bob'') = PosInf
   \<and> fst (calculate_person_balance_with str_lower (builtin_sum Since_3_12)
          [bob_huge, bob_huge_back, bob_huge_again] ''Bob'') = Finite huge
   \<and> fst (calculate_person_balance_with str_lower (builtin_sum Before_3_12)
          [bob_dime, bob_two_dimes, bob_three_dimes] ''Bob'')
       = Finite (1351079888211149 / 2251799813685248)
   \<and> fst (calculate_person_balance_with str_lower (builtin_sum Before_3_12)
          [bob_three_dimes, bob_two_dimes, bob_dime] ''Bob'')
       = Finite (5404319552844595 / 9007199254740992)"
proof -
  have "mset [bob_huge, bob_huge_back, bob_huge_again]
      = mset [bob_huge, bob_huge_again, bob_huge_back]"
    by simp
  moreover have "fst (calculate_person_balance_with str_lower (builtin_sum Before_3_12)
      [bob_huge, bob_huge_again, bob_huge_back] ''Bob'') = PosInf"
    by (simp add: calculate_person_balance_with_def float_examples huge_eval)
  moreover have "fst (calculate_person_balance_with str_lower (builtin_sum Before_3_12)
      [bob_huge, bob_huge_back, bob_huge_again] ''Bob'') = Finite huge"
    by (simp add: calculate_person_balance_with_def float_examples huge_eval)
  moreover have "fst (calculate_person_balance_with str_lower (builtin_sum Since_3_12)
      [bob_huge, bob_huge_again, bob_huge_back] ''Bob'') = PosInf"
    using huge_pos by (simp add: calculate_person_balance_with_def float_examples huge_eval)
  moreover have "fst (calculate_person_balance_with str_lower (builtin_sum Since_3_12)
      [bob_huge, bob_huge_back, bob_huge_again] ''Bob'') = Finite huge"
    using huge_pos by (simp add: calculate_person_balance_with_def float_examples huge_eval)
  moreover have "fst (calculate_person_balance_with str_lower (builtin_sum Before_3_12)
      [bob_dime, bob_two_dimes, bob_three_dimes] ''Bob'')
      = Finite (1351079888211149 / 2251799813685248)"
    by (simp add: calculate_person_balance_with_def float_examples builtin_sum_def
        zero_double_def round_eval)
  moreover have "fst (calculate_person_balance_with str_lower (builtin_sum Before_3_12)
      [bob_three_dimes, bob_two_dimes, bob_dime] ''Bob'')
      = Finite (5404319552844595 / 9007199254740992)"
    by (simp add: calculate_person_balance_with_def float_examples builtin_sum_def
        zero_double_def round_eval)
  ultimately show ?thesis by blast
qed

text \<open>
  Claim C1, amended. For every collection and every name, \<open>calculate_person_balance\<close>
  returns the builtin sum of \<open>amount\<close>, taken in store order, over exactly the
  transactions whose \<open>person\<close> equals the name after \<open>str.lower\<close> of both, paired with
  that sub-collection; with exact (rational) arithmetic that sum is the arithmetic sum
  and does not depend on the order of the collection.
\<close>

theorem calculate_person_balance_exact:
  "calculate_person_balance_with lower total_of ts p =
     (total_of (map amount (filter (\<lambda>t. lower (person t) = lower p) ts)),
      filter (\<lambda>t. lower (person t) = lower p) ts)
   \<and> fst (calculate_person_balance_with lower py_sum rs p) =
       sum_list (map amount (filter (\<lambda>t. lower (person t) = lower p) rs))
   \<and> (\<forall>rs'. mset rs' = mset rs \<longrightarrow>
         fst (calculate_person_balance_with lower py_sum rs' p) =
         fst (calculate_person_balance_with lower py_sum rs p))"
proof -
  let ?m = "\<lambda>t. lower (person t) = lower p"
  have bal: "fst (calculate_person_balance_with lower py_sum us p) =
      sum_mset (image_mset amount (filter_mset ?m (mset us)))" for us
    by (simp add: calculate_person_balance_with_def Let_def py_sum_mset)
  have "calculate_person_balance_with lower total_of ts p =
      (total_of (map amount (filter ?m ts)), filter ?m ts)"
    by (simp add: calculate_person_balance_with_def Let_def)
  moreover have "fst (calculate_person_balance_with lower py_sum rs p) =
      sum_list (map amount (filter ?m rs))"
    by (simp add: calculate_person_balance_with_def Let_def py_sum_sum_list)
  moreover have "fst (calculate_person_balance_with lower py_sum rs' p) =
      fst (calculate_person_balance_with lower py_sum rs p)"
    if "mset rs' = mset rs" for rs'
    using that by (simp add: bal)
  ultimately show ?thesis by blast
qed

theorem calculate_person_balance_exact_witness:
  "calculate_person_balance_with str_lower (builtin_sum Since_3_12)
      [bob_cent, bob_two_cents] ''BOB''
     = (builtin_sum Since_3_12 [round_double (1 / 100), round_double (2 / 100)],
        [bob_cent, bob_two_cents])
   \<and> fst (calculate_person_balance_with str_lower py_sum
          [alice_lunch, bob_taxi, alice_back] ''ALICE'') = 15
   \<and> mset [alice_back, alice_lunch, bob_taxi] = mset [alice_lunch, bob_taxi, alice_back]
   \<and> fst (calculate_person_balance_with str_lower py_sum
          [alice_back, alice_lunch, bob_taxi] ''ALICE'') = 15"
proof -
  note float_inst = calculate_person_balance_exact [of str_lower "builtin_sum Since_3_12"
      "[bob_cent, bob_two_cents]" "''BOB''" "[]"]
  note exact_inst = calculate_person_balance_exact [of str_lower py_sum
      "[]" "''ALICE''" "[alice_lunch, bob_taxi, alice_back]"]
  have m: "mset [alice_back, alice_lunch, bob_taxi] = mset [alice_lunch, bob_taxi, alice_back]"
    by simp
  from float_inst have "calculate_person_balance_with str_lower (builtin_sum Since_3_12)
      [bob_cent, bob_two_cents] ''BOB''
     = (builtin_sum Since_3_12 [round_double (1 / 100), round_double (2 / 100)],
        [bob_cent, bob_two_cents])"
    by (simp add: float_examples lower_defs)
  moreover from exact_inst have v: "fst (calculate_person_balance_with str_lower py_sum
      [alice_lunch, bob_taxi, alice_back] ''ALICE'') = 15"
    by (simp add: example_defs lower_defs)
  moreover from exact_inst m have "fst (calculate_person_balance_with str_lower py_sum
      [alice_back, alice_lunch, bob_taxi] ''ALICE'')
    = fst (calculate_person_balance_with str_lower py_sum
        [alice_lunch, bob_taxi, alice_back] ''ALICE'')"
    by blast
  ultimately show ?thesis using m by simp
qed

section \<open>Settlement\<close>






section \<open>Aggregates\<close>

lemma given_minus_borrowed:
  "sum_list [amount t. t \<leftarrow> ts, amount t > 0] - sum_list [\<bar>amount t\<bar>. t \<leftarrow> ts, amount t < 0]
     = sum_list (map amount ts)"
  for ts :: "rat transaction list"
  by (induction ts) auto

text \<open>
  Claim C4. In exact arithmetic, total given minus total borrowed is the net position
  of the summary (line 663), and it equals the sidebar's net balance (line 263), the
  plain sum of all amounts.
\<close>

theorem net_position_is_sum:
  "total_given ts - total_borrowed ts = net_position ts
   \<and> net_position ts = net_balance ts
   \<and> net_balance ts = sum_list (map amount ts)"
  by (simp add: net_position_def net_balance_def total_given_def total_borrowed_def
      py_sum_sum_list given_minus_borrowed)

section \<open>Deleting by timestamp\<close>

lemma pop_first_absent: "k \<notin> timestamp ` set ts \<Longrightarrow> pop_first k ts = ts"
  by (induction ts) auto

lemma pop_first_single:
  "length (filter (\<lambda>t. timestamp t = k) ts) \<le> 1 \<Longrightarrow> k \<notin> timestamp ` set (pop_first k ts)"
  by (induction ts) (auto simp: filter_empty_conv)

lemma pop_first_split:
  "ts = pre @ t # post \<Longrightarrow> timestamp t = k \<Longrightarrow> \<forall>u \<in> set pre. timestamp u \<noteq> k
     \<Longrightarrow> pop_first k ts = pre @ post"
  by (induction pre arbitrary: ts) auto

lemma transactions_save_data: "transactions (save_data s) = transactions s"
  by (simp add: save_data_def)

lemma save_data_idem: "save_data (save_data s) = save_data s"
  by (simp add: save_data_def)

lemma transactions_del_trans: "transactions (del_trans k s) = pop_first k (transactions s)"
  by (simp add: del_trans_def save_data_def)

text \<open>
  Claim C10. A delete takes out at most one transaction: in a store where two or more
  transactions carry the timestamp, the first of them in store order is removed, and
  every other transaction (the later ones with that timestamp included) stays where it
  was, so that one match fewer is left.
\<close>

theorem del_trans_removes_first_only:
  "2 \<le> length (filter (\<lambda>t. timestamp t = k) (transactions s)) \<Longrightarrow>
     \<exists>pre t post. transactions s = pre @ t # post
        \<and> timestamp t = k \<and> (\<forall>u \<in> set pre. timestamp u \<noteq> k)
        \<and> transactions (del_trans k s) = pre @ post
        \<and> (\<exists>u \<in> set post. timestamp u = k)
        \<and> length (filter (\<lambda>t. timestamp t = k) (transactions (del_trans k s)))
            = length (filter (\<lambda>t. timestamp t = k) (transactions s)) - 1"
proof -
  assume two: "2 \<le> length (filter (\<lambda>t. timestamp t = k) (transactions s))"
  then have "filter (\<lambda>t. timestamp t = k) (transactions s) \<noteq> []"
    by auto
  then have "\<exists>t \<in> set (transactions s). timestamp t = k"
    by (auto simp: filter_empty_conv)
  then obtain pre t post where
    split: "transactions s = pre @ t # post" "timestamp t = k" "\<forall>u \<in> set pre. timestamp u \<noteq> k"
    by (auto simp: split_list_first_prop_iff)
  then have res: "transactions (del_trans k s) = pre @ post"
    by (simp add: transactions_del_trans pop_first_split)
  from split have pre: "filter (\<lambda>t. timestamp t = k) pre = []"
    by (simp add: filter_empty_conv)
  with split two have "1 \<le> length (filter (\<lambda>t. timestamp t = k) post)"
    by simp
  then have "filter (\<lambda>t. timestamp t = k) post \<noteq> []"
    by auto
  then have later: "\<exists>u \<in> set post. timestamp u = k"
    by (auto simp: filter_empty_conv)
  from split pre res have "length (filter (\<lambda>t. timestamp t = k) (transactions (del_trans k s)))
      = length (filter (\<lambda>t. timestamp t = k) (transactions s)) - 1"
    by simp
  with split res later show ?thesis by blast
qed

theorem del_trans_removes_first_only_witness:
  "2 \<le> length (filter (\<lambda>t. timestamp t = ''2024-01-03 18:00:00'') [bob_taxi, alice_lunch, bob_tip])
   \<and> transactions (del_trans ''2024-01-03 18:00:00''
         \<lparr>transactions = [bob_taxi, alice_lunch, bob_tip], data_file = Absent\<rparr>)
       = [alice_lunch, bob_tip]
   \<and> length (filter (\<lambda>t. timestamp t = ''2024-01-03 18:00:00'')
        (transactions (del_trans ''2024-01-03 18:00:00''
           \<lparr>transactions = [bob_taxi, alice_lunch, bob_tip], data_file = Absent\<rparr>))) = 1"
proof -
  let ?k = "''2024-01-03 18:00:00''"
  let ?s = "\<lparr>transactions = [bob_taxi, alice_lunch, bob_tip], data_file = Absent\<rparr>"
  have two: "2 \<le> length (filter (\<lambda>t. timestamp t = ?k) (transactions ?s))"
    by (simp add: example_defs)
  have n: "length (filter (\<lambda>t. timestamp t = ?k) (transactions ?s)) - 1 = 1"
    by (simp add: example_defs)
  have res: "transactions (del_trans ?k ?s) = [alice_lunch, bob_tip]"
    by (simp add: del_trans_def save_data_def example_defs)
  from del_trans_removes_first_only [OF two] n
  have "length (filter (\<lambda>t. timestamp t = ?k) (transactions (del_trans ?k ?s))) = 1"
    by auto
  with two res show ?thesis by simp
qed

text \<open>
  Claim C5, as stated, fails: in a store where two transactions carry the timestamp,
  the second delete removes another transaction.
\<close>

theorem del_trans_twice_counterexample:
  "del_trans ''2024-01-03 18:00:00''
     (del_trans ''2024-01-03 18:00:00'' \<lparr>transactions = [bob_taxi, bob_tip], data_file = Absent\<rparr>)
   \<noteq> del_trans ''2024-01-03 18:00:00'' \<lparr>transactions = [bob_taxi, bob_tip], data_file = Absent\<rparr>"
  by (simp add: del_trans_def save_data_def example_defs)

text \<open>
  Claim C5, amended. In every store where at most one transaction carries the
  timestamp, deleting twice gives the same state as deleting once; and when no
  transaction carries it, the delete leaves the collection as it was (the handler
  writes that same collection to the file and raises nothing).
\<close>

theorem del_trans_idempotent_unique:
  "(length (filter (\<lambda>t. timestamp t = k) (transactions s)) \<le> 1 \<longrightarrow>
      del_trans k (del_trans k s) = del_trans k s)
   \<and> (k \<notin> timestamp ` set (transactions s) \<longrightarrow>
        del_trans k s = save_data s \<and> transactions (del_trans k s) = transactions s)"
proof (intro conjI impI)
  assume one: "length (filter (\<lambda>t. timestamp t = k) (transactions s)) \<le> 1"
  have "pop_first k (pop_first k (transactions s)) = pop_first k (transactions s)"
    by (rule pop_first_absent) (rule pop_first_single [OF one])
  then show "del_trans k (del_trans k s) = del_trans k s"
    by (simp add: del_trans_def save_data_def)
next
  assume absent: "k \<notin> timestamp ` set (transactions s)"
  then show "del_trans k s = save_data s"
    by (simp add: del_trans_def pop_first_absent)
  from absent show "transactions (del_trans k s) = transactions s"
    by (simp add: transactions_del_trans pop_first_absent)
qed

theorem del_trans_idempotent_unique_witness:
  "length (filter (\<lambda>t. timestamp t = ''2024-01-03 18:00:00'') [alice_lunch, bob_taxi]) \<le> 1
   \<and> del_trans ''2024-01-03 18:00:00'' (del_trans ''2024-01-03 18:00:00''
         \<lparr>transactions = [alice_lunch, bob_taxi], data_file = Absent\<rparr>)
       = \<lparr>transactions = [alice_lunch], data_file = Readable (Object (Some [alice_lunch]))\<rparr>
   \<and> ''2024-01-03 18:00:00'' \<notin> timestamp ` set [alice_lunch, alice_back]
   \<and> transactions (del_trans ''2024-01-03 18:00:00''
         \<lparr>transactions = [alice_lunch, alice_back], data_file = Absent\<rparr>)
       = [alice_lunch, alice_back]"
proof -
  let ?k = "''2024-01-03 18:00:00''"
  let ?s = "\<lparr>transactions = [alice_lunch, bob_taxi], data_file = Absent\<rparr>"
  let ?a = "\<lparr>transactions = [alice_lunch, alice_back], data_file = Absent\<rparr>"
  have one: "length (filter (\<lambda>t. timestamp t = ?k) [alice_lunch, bob_taxi]) \<le> 1"
    by (simp add: example_defs)
  have absent: "?k \<notin> timestamp ` set [alice_lunch, alice_back]"
    by (simp add: example_defs)
  have once: "del_trans ?k ?s
      = \<lparr>transactions = [alice_lunch], data_file = Readable (Object (Some [alice_lunch]))\<rparr>"
    by (simp add: del_trans_def save_data_def example_defs)
  from del_trans_idempotent_unique [of ?k ?s] one
  have "del_trans ?k (del_trans ?k ?s) = del_trans ?k ?s" by simp
  moreover from del_trans_idempotent_unique [of ?k ?a] absent
  have "transactions (del_trans ?k ?a) = [alice_lunch, alice_back]"
    by (simp add: transactions_save_data)
  ultimately show ?thesis using one absent once by simp
qed

section \<open>Uniqueness of timestamps\<close>

lemma set_pop_first: "set (pop_first k ts) \<subseteq> set ts"
  by (induction ts) auto

lemma distinct_pop_first:
  "distinct (map timestamp ts) \<Longrightarrow> distinct (map timestamp (pop_first k ts))"
  using set_pop_first [of k] by (induction ts) auto

lemma distinct_remove1_map:
  "distinct (map timestamp ts) \<Longrightarrow> distinct (map timestamp (remove1 x ts))"
  using set_remove1_subset [of x] by (induction ts) auto

lemma step_timestamps:
  "set (map timestamp (transactions (step c s)))
     \<subseteq> set (map timestamp (transactions s)) \<union> set (stamps [c])"
proof (cases c)
  case (Record now p ty a d pu r)
  then show ?thesis
    by (auto simp: transaction_form_submit_def Let_def save_data_def)
next
  case (Settle today now p)
  then show ?thesis
    by (auto simp: mark_as_settled_def Let_def save_data_def split: prod.splits)
next
  case (Delete k)
  then show ?thesis
    using set_pop_first [of k "transactions s"] by (auto simp: transactions_del_trans)
next
  case (Remove t)
  then show ?thesis
    using set_remove1_subset [of t "transactions s"]
    by (auto simp: del_person_trans_def save_data_def)
qed

lemma step_distinct:
  assumes "distinct (map timestamp (transactions s))"
    and "set (stamps [c]) \<inter> set (map timestamp (transactions s)) = {}"
  shows "distinct (map timestamp (transactions (step c s)))"
proof (cases c)
  case (Record now p ty a d pu r)
  with assms show ?thesis
    by (auto simp: transaction_form_submit_def Let_def save_data_def)
next
  case (Settle today now p)
  with assms show ?thesis
    by (auto simp: mark_as_settled_def Let_def save_data_def split: prod.splits)
next
  case (Delete k)
  with assms show ?thesis
    by (simp add: transactions_del_trans distinct_pop_first)
next
  case (Remove t)
  with assms show ?thesis
    by (simp add: del_person_trans_def save_data_def distinct_remove1_map)
qed

lemma stamps_Cons: "stamps (c # cs) = stamps [c] @ stamps cs"
  by (cases c) simp_all

lemma run_distinct:
  "distinct (map timestamp (transactions s)) \<Longrightarrow> distinct (stamps cs)
     \<Longrightarrow> set (stamps cs) \<inter> set (map timestamp (transactions s)) = {}
     \<Longrightarrow> distinct (map timestamp (transactions (run cs s)))"
proof (induction cs arbitrary: s)
  case Nil
  then show ?case by simp
next
  case (Cons c cs)
  have split: "stamps (c # cs) = stamps [c] @ stamps cs"
    by (rule stamps_Cons)
  from Cons.prems split have here: "set (stamps [c]) \<inter> set (map timestamp (transactions s)) = {}"
    and rest: "distinct (stamps cs)"
    and apart: "set (stamps [c]) \<inter> set (stamps cs) = {}"
    and old: "set (stamps cs) \<inter> set (map timestamp (transactions s)) = {}"
    by auto
  have d: "distinct (map timestamp (transactions (step c s)))"
    using Cons.prems(1) here by (rule step_distinct)
  have "set (stamps cs) \<inter> set (map timestamp (transactions (step c s))) = {}"
    using step_timestamps [of c s] apart old by blast
  with d rest have "distinct (map timestamp (transactions (run cs (step c s))))"
    by (rule Cons.IH)
  then show ?case by simp
qed

text \<open>
  Claim C9, as stated, fails: the timestamp has a resolution of one second, so two
  transactions recorded at different instants of the same second share it.
\<close>

theorem same_second_counterexample:
  "noon \<noteq> noon_later
   \<and> transactions (run [Record noon ''Bob'' Gave 3 jan6 ''Taxi'' False,
                        Record noon_later ''Bob'' Gave 1 jan6 ''Tip'' False] empty_app)
       = [\<lparr>person = ''Bob'', amount = 3, date = ''2024-01-06'', purpose = ''Taxi'',
            is_repayment = False, timestamp = ''2024-01-06 12:00:00''\<rparr>,
          \<lparr>person = ''Bob'', amount = 1, date = ''2024-01-06'', purpose = ''Tip'',
            is_repayment = False, timestamp = ''2024-01-06 12:00:00''\<rparr>]
   \<and> \<not> distinct (map timestamp (transactions
         (run [Record noon ''Bob'' Gave 3 jan6 ''Taxi'' False,
               Record noon_later ''Bob'' Gave 1 jan6 ''Tip'' False] empty_app)))"
  by (simp add: transaction_form_submit_def Let_def save_data_def empty_app_def strftime_defs
      example_defs)

text \<open>
  Claim C9, amended. After every run of record, settle and delete commands from the
  empty store in which the record and settle commands were issued at pairwise
  different clock seconds (their formatted timestamps are pairwise different), no two
  stored transactions carry the same timestamp.
\<close>

theorem timestamps_unique_when_clock_fresh:
  "distinct (stamps cs) \<Longrightarrow> distinct (map timestamp (transactions (run cs empty_app)))"
  by (rule run_distinct) (simp_all add: empty_app_def)

theorem timestamps_unique_when_clock_fresh_witness:
  "distinct (stamps [Record noon ''Bob'' Gave 3 jan6 ''Taxi'' False, Settle jan6 one_pm ''Bob'',
                     Delete ''2024-01-06 12:00:00''])
   \<and> distinct (map timestamp (transactions
         (run [Record noon ''Bob'' Gave 3 jan6 ''Taxi'' False, Settle jan6 one_pm ''Bob'',
               Delete ''2024-01-06 12:00:00''] empty_app)))
   \<and> transactions
         (run [Record noon ''Bob'' Gave 3 jan6 ''Taxi'' False, Settle jan6 one_pm ''Bob'',
               Delete ''2024-01-06 12:00:00''] empty_app)
       = [\<lparr>person = ''Bob'', amount = - 3, date = ''2024-01-06'', purpose = ''Full settlement'',
            is_repayment = True, timestamp = ''2024-01-06 13:00:00''\<rparr>]"
proof -
  let ?cs = "[Record noon ''Bob'' Gave 3 jan6 ''Taxi'' False, Settle jan6 one_pm ''Bob'',
              Delete ''2024-01-06 12:00:00'']"
  have d: "distinct (stamps ?cs)"
    by (simp add: strftime_defs example_defs)
  have r: "transactions (run ?cs empty_app)
      = [\<lparr>person = ''Bob'', amount = - 3, date = ''2024-01-06'', purpose = ''Full settlement'',
            is_repayment = True, timestamp = ''2024-01-06 13:00:00''\<rparr>]"
    by (simp add: transaction_form_submit_def mark_as_settled_def calculate_person_balance_def
        Let_def py_sum_def del_trans_def save_data_def empty_app_def strftime_defs example_defs lower_defs)
  from timestamps_unique_when_clock_fresh [OF d] d r show ?thesis by blast
qed

section \<open>Recording a transaction\<close>

text \<open>
  Claim C7, as stated, fails: the handler answers an empty name and a zero amount with
  the same message, which names no field, and it accepts a date after today (only the
  date widget caps the date).
\<close>

theorem transaction_form_submit_counterexample:
  "transaction_form_submit noon [] Gave 5 jan6 ''Lunch'' False empty_app = (FillRequired, empty_app)
   \<and> transaction_form_submit noon ''Bob'' Gave 0 jan6 ''Lunch'' False empty_app = (FillRequired, empty_app)
   \<and> year noon < year far_future
   \<and> transaction_form_submit noon ''Bob'' Gave 5 far_future ''Lunch'' False empty_app =
       (Added ''Bob'',
        \<lparr>transactions =
           [\<lparr>person = ''Bob'', amount = 5, date = ''2999-12-31'', purpose = ''Lunch'',
             is_repayment = False, timestamp = ''2024-01-06 12:00:00''\<rparr>],
         data_file = Readable (Object (Some
           [\<lparr>person = ''Bob'', amount = 5, date = ''2999-12-31'', purpose = ''Lunch'',
             is_repayment = False, timestamp = ''2024-01-06 12:00:00''\<rparr>]))\<rparr>)"
  by (simp add: transaction_form_submit_def Let_def save_data_def empty_app_def strftime_defs
      example_defs)

text \<open>
  Claim C7, amended. The submit handler requires a non-empty person and an amount
  above 0 (the form's unsigned amount; the transaction type gives the sign). For every
  input violating one of the two it reports the one fixed message and returns the
  state as it was, file included; for every input satisfying them it appends exactly
  one transaction with the person, the signed amount, the formatted date, the purpose,
  the repayment flag and the formatted clock reading, and writes the new collection to
  the file. The handler does not check the date.
\<close>

theorem transaction_form_submit_cases:
  "(person_name = [] \<or> amt \<le> 0 \<longrightarrow>
      transaction_form_submit now person_name ty amt d pu r s = (FillRequired, s))
   \<and> (person_name \<noteq> [] \<and> 0 < amt \<longrightarrow>
        transaction_form_submit now person_name ty amt d pu r s =
          (Added person_name,
           \<lparr>transactions = transactions s @
              [\<lparr>person = person_name, amount = (if ty = Gave then amt else - amt),
                date = strftime_ymd d, purpose = pu, is_repayment = r,
                timestamp = strftime_ymd_hms now\<rparr>],
            data_file = Readable (Object (Some (transactions s @
              [\<lparr>person = person_name, amount = (if ty = Gave then amt else - amt),
                date = strftime_ymd d, purpose = pu, is_repayment = r,
                timestamp = strftime_ymd_hms now\<rparr>])))\<rparr>))"
  by (auto simp: transaction_form_submit_def Let_def save_data_def)

theorem transaction_form_submit_cases_witness:
  "transaction_form_submit noon [] Borrowed 5 jan6 ''Lunch'' False
      \<lparr>transactions = [alice_lunch], data_file = Absent\<rparr>
     = (FillRequired, \<lparr>transactions = [alice_lunch], data_file = Absent\<rparr>)
   \<and> transaction_form_submit noon ''Bob'' Borrowed 5 jan6 ''Lunch'' True
      \<lparr>transactions = [alice_lunch], data_file = Absent\<rparr>
     = (Added ''Bob'',
        \<lparr>transactions =
           [alice_lunch,
            \<lparr>person = ''Bob'', amount = - 5, date = ''2024-01-06'', purpose = ''Lunch'',
             is_repayment = True, timestamp = ''2024-01-06 12:00:00''\<rparr>],
         data_file = Readable (Object (Some
           [alice_lunch,
            \<lparr>person = ''Bob'', amount = - 5, date = ''2024-01-06'', purpose = ''Lunch'',
             is_repayment = True, timestamp = ''2024-01-06 12:00:00''\<rparr>]))\<rparr>)"
proof -
  let ?s = "\<lparr>transactions = [alice_lunch], data_file = Absent\<rparr>"
  have t: "strftime_ymd jan6 = ''2024-01-06''" "strftime_ymd_hms noon = ''2024-01-06 12:00:00''"
    by (simp_all add: strftime_defs example_defs)
  from transaction_form_submit_cases [of "[]" 5 noon Borrowed jan6 "''Lunch''" False ?s]
  have "transaction_form_submit noon [] Borrowed 5 jan6 ''Lunch'' False ?s = (FillRequired, ?s)"
    by simp
  moreover
  from transaction_form_submit_cases [of "''Bob''" 5 noon Borrowed jan6 "''Lunch''" True ?s] t
  have "transaction_form_submit noon ''Bob'' Borrowed 5 jan6 ''Lunch'' True ?s
     = (Added ''Bob'',
        \<lparr>transactions =
           [alice_lunch,
            \<lparr>person = ''Bob'', amount = - 5, date = ''2024-01-06'', purpose = ''Lunch'',
             is_repayment = True, timestamp = ''2024-01-06 12:00:00''\<rparr>],
         data_file = Readable (Object (Some
           [alice_lunch,
            \<lparr>person = ''Bob'', amount = - 5, date = ''2024-01-06'', purpose = ''Lunch'',
             is_repayment = True, timestamp = ''2024-01-06 12:00:00''\<rparr>]))\<rparr>)"
    by simp
  ultimately show ?thesis by simp
qed

section \<open>Loading\<close>

text \<open>
  Claim C8, as stated, fails: when the file is absent or unreadable, \<open>load_data\<close>
  keeps the collection the session already holds, which need not be empty.
\<close>

theorem load_data_counterexample:
  "transactions (load_data \<lparr>transactions = [alice_lunch], data_file = Absent\<rparr>) = [alice_lunch]
   \<and> transactions (load_data \<lparr>transactions = [alice_lunch], data_file = Unreadable\<rparr>) \<noteq> []
   \<and> transactions (startup (Some [alice_lunch]) Absent) \<noteq> []"
  by (simp add: load_data_def startup_def init_session_def)

text \<open>
  Claim C8, amended. When the file is absent or unreadable, \<open>load_data\<close> leaves the
  session's collection as it was and reports nothing, so a fresh session starts with
  the empty collection; otherwise it replaces the collection by the document's
  transaction list, by the empty list when the document has no such field, and leaves
  it as it was when the document is not a dictionary. The file is never changed.
\<close>

theorem load_data_lenient:
  "(data_file s = Absent \<or> data_file s = Unreadable \<longrightarrow> load_data s = s)
   \<and> (f = Absent \<or> f = Unreadable \<longrightarrow> transactions (startup None f) = [])
   \<and> (data_file s = Readable (Object (Some ts)) \<longrightarrow> transactions (load_data s) = ts)
   \<and> (data_file s = Readable (Object None) \<longrightarrow> transactions (load_data s) = [])
   \<and> (data_file s = Readable NotObject \<longrightarrow> load_data s = s)
   \<and> data_file (load_data s) = data_file s"
  by (auto simp: load_data_def startup_def init_session_def
      split: storage.splits document.splits option.splits)

theorem load_data_lenient_witness:
  "load_data \<lparr>transactions = [alice_lunch], data_file = Unreadable\<rparr>
     = \<lparr>transactions = [alice_lunch], data_file = Unreadable\<rparr>
   \<and> transactions (startup None Absent :: rat app) = []
   \<and> transactions (load_data \<lparr>transactions = [], data_file = Readable (Object (Some [bob_taxi]))\<rparr>)
       = [bob_taxi]
   \<and> transactions (load_data \<lparr>transactions = [bob_taxi], data_file = Readable (Object None)\<rparr>) = []
   \<and> load_data \<lparr>transactions = [bob_taxi], data_file = Readable NotObject\<rparr>
       = \<lparr>transactions = [bob_taxi], data_file = Readable NotObject\<rparr>"
proof -
  from load_data_lenient [of "\<lparr>transactions = [alice_lunch], data_file = Unreadable\<rparr>"
      "Absent :: rat storage" "[]"]
  have "load_data \<lparr>transactions = [alice_lunch], data_file = Unreadable\<rparr>
     = \<lparr>transactions = [alice_lunch], data_file = Unreadable\<rparr>"
    and "transactions (startup None Absent :: rat app) = []"
    by simp_all
  moreover
  from load_data_lenient [of "\<lparr>transactions = [], data_file = Readable (Object (Some [bob_taxi]))\<rparr>"
      "Absent :: rat storage" "[bob_taxi]"]
  have "transactions (load_data \<lparr>transactions = [], data_file = Readable (Object (Some [bob_taxi]))\<rparr>)
       = [bob_taxi]"
    by simp
  moreover
  from load_data_lenient [of "\<lparr>transactions = [bob_taxi], data_file = Readable (Object None)\<rparr>"
      "Absent :: rat storage" "[]"]
  have "transactions (load_data \<lparr>transactions = [bob_taxi], data_file = Readable (Object None)\<rparr>) = []"
    by simp
  moreover
  from load_data_lenient [of "\<lparr>transactions = [bob_taxi], data_file = Readable NotObject\<rparr>"
      "Absent :: rat storage" "[]"]
  have "load_data \<lparr>transactions = [bob_taxi], data_file = Readable NotObject\<rparr>
       = \<lparr>transactions = [bob_taxi], data_file = Readable NotObject\<rparr>"
    by simp
  ultimately show ?thesis by simp
qed

section \<open>Persons\<close>

lemma get_all_persons_props:
  "set_iteration enum \<Longrightarrow>
     distinct (get_all_persons enum ts)
     \<and> set (get_all_persons enum ts) = person ` set ts
     \<and> sorted (map str_lower (get_all_persons enum ts))"
  by (simp add: get_all_persons_def set_iteration_def Let_def)

lemma max_by_keeps_best: "\<forall>x \<in> set xs. f x \<le> f best \<Longrightarrow> max_by f best xs = best"
  by (induction xs) auto

lemma lower_names:
  "str_lower ''Bob'' = ''bob''" "str_lower ''bob'' = ''bob''" "str_lower ''Al'' = ''al''"
  "str_lower ''alice'' = ''alice''" "str_lower ''Alice'' = ''alice''"
  by (simp_all add: lower_defs)

lemma name_order: "\<not> ''bob'' \<le> ''al''" "\<not> ''bob'' \<le> ''alice''"
  by code_simp+

lemma sorted_head_least:
  "sorted (map f (p # ps)) \<Longrightarrow> q \<in> set (p # ps) \<Longrightarrow> f p \<le> f q"
  by auto

text \<open>
  Claim C2 at the ledger of scenario B, one transaction for "Alice" and one for
  "alice": whatever the iteration order of the set, \<open>get_all_persons\<close> lists both
  spellings, where the claim has the single name "Alice". The set removes equal
  strings only, although \<open>calculate_person_balance\<close> counts the two spellings as one
  person.
\<close>

theorem get_all_persons_keeps_case_variants:
  "set_iteration enum \<Longrightarrow>
     set (get_all_persons enum [alice_lunch, alice_back]) = {''Alice'', ''alice''}
     \<and> length (get_all_persons enum [alice_lunch, alice_back]) = 2
     \<and> get_all_persons enum [alice_lunch, alice_back] \<noteq> [''Alice'']"
proof -
  assume e: "set_iteration enum"
  let ?ps = "get_all_persons enum [alice_lunch, alice_back]"
  from get_all_persons_props [OF e, of "[alice_lunch, alice_back]"]
  have d: "distinct ?ps" and s: "set ?ps = {''Alice'', ''alice''}"
    by (auto simp: example_defs)
  from d have "length ?ps = card (set ?ps)"
    by (simp add: distinct_card)
  with s have l: "length ?ps = 2" by simp
  then have "?ps \<noteq> [''Alice'']" by auto
  with s l show ?thesis by blast
qed

theorem get_all_persons_keeps_case_variants_witness:
  "set_iteration remdups
   \<and> length (get_all_persons remdups [alice_lunch, alice_back]) = 2
   \<and> get_all_persons remdups [alice_lunch, alice_back] \<noteq> [''Alice'']"
proof -
  have e: "set_iteration remdups"
    by (simp add: set_iteration_def)
  from get_all_persons_keeps_case_variants [OF e] e show ?thesis by blast
qed

text \<open>
  Claim C6 at a ledger with one transaction each for "Bob", "bob" and "Al": the most
  active person is "Al", since the count compares the names as they are written,
  although \<open>calculate_person_balance\<close> gives two transactions for "Bob" and one for
  "Al".
\<close>

theorem most_active_counts_case_sensitively:
  "set_iteration enum \<Longrightarrow>
     most_active enum [bob_taxi, bob_lower, al_book] = Some ''Al''
     \<and> fst (calculate_person_balance [bob_taxi, bob_lower, al_book] ''Bob'') = 7
     \<and> length (snd (calculate_person_balance [bob_taxi, bob_lower, al_book] ''Bob'')) = 2
     \<and> length (snd (calculate_person_balance [bob_taxi, bob_lower, al_book] ''Al'')) = 1"
proof -
  assume e: "set_iteration enum"
  let ?ts = "[bob_taxi, bob_lower, al_book]"
  let ?f = "\<lambda>p. length [t \<leftarrow> ?ts. person t = p]"
  from get_all_persons_props [OF e, of ?ts]
  have s: "set (get_all_persons enum ?ts) = {''Bob'', ''bob'', ''Al''}"
    and o: "sorted (map str_lower (get_all_persons enum ?ts))"
    by (auto simp: example_defs)
  from s obtain p ps where ps: "get_all_persons enum ?ts = p # ps"
    by (cases "get_all_persons enum ?ts") auto
  have "''Al'' \<in> set (p # ps)"
    using s ps by simp
  with o ps have "str_lower p \<le> str_lower ''Al''"
    using sorted_head_least [of str_lower p ps "''Al''"] by simp
  moreover have "p \<in> {''Bob'', ''bob'', ''Al''}"
    using s ps by auto
  ultimately have p: "p = ''Al''"
    using name_order by (auto simp: lower_names)
  have "?f x \<le> ?f p" if "x \<in> set ps" for x
  proof -
    from that s ps have "x \<in> {''Bob'', ''bob'', ''Al''}" by auto
    then show ?thesis
      unfolding p by (auto simp: example_defs)
  qed
  then have "max_by ?f p ps = p"
    by (simp add: max_by_keeps_best)
  with ps p have m: "most_active enum ?ts = Some ''Al''"
    by (simp add: most_active_def)
  have "fst (calculate_person_balance ?ts ''Bob'') = 7"
    and "length (snd (calculate_person_balance ?ts ''Bob'')) = 2"
    and "length (snd (calculate_person_balance ?ts ''Al'')) = 1"
    by (simp_all add: calculate_person_balance_def py_sum_def example_defs lower_defs)
  with m show ?thesis by blast
qed

theorem most_active_counts_case_sensitively_witness:
  "set_iteration remdups \<and> most_active remdups [bob_taxi, bob_lower, al_book] = Some ''Al''"
proof -
  have e: "set_iteration remdups"
    by (simp add: set_iteration_def)
  from most_active_counts_case_sensitively [OF e] e show ?thesis by blast
qed

text \<open>
  Scenario E, two transactions for "Bob" and one for "alice", gives "Bob" whatever
  the iteration order of the set.
\<close>

lemma scenario_E:
  "set_iteration enum \<Longrightarrow> most_active enum [bob_taxi, bob_tip, alice_back] = Some ''Bob''"
proof -
  assume e: "set_iteration enum"
  let ?ts = "[bob_taxi, bob_tip, alice_back]"
  let ?f = "\<lambda>p. length [t \<leftarrow> ?ts. person t = p]"
  let ?ps = "get_all_persons enum ?ts"
  from get_all_persons_props [OF e, of ?ts]
  have s: "set ?ps = {''Bob'', ''alice''}"
    and d: "distinct ?ps"
    and o: "sorted (map str_lower ?ps)"
    by (auto simp: example_defs)
  from d have "length ?ps = card (set ?ps)"
    by (simp add: distinct_card)
  with s have "length ?ps = 2" by simp
  then obtain p q where ps: "?ps = [p, q]"
    by (cases ?ps; cases "tl ?ps") auto
  with s d o have "p = ''alice'' \<and> q = ''Bob''"
    using name_order by (auto simp: lower_names doubleton_eq_iff)
  with ps show ?thesis
    by (simp add: most_active_def example_defs)
qed

end
